theory Spec2Isabelle
  imports Main "HOL-Library.Log_Nat"
begin

section \<open>Shared vocabulary\<close>

text \<open>
  Both source files are asynchronous TypeScript. An \<^verbatim>\<open>async\<close> method either resolves or
  rejects; in both cases the fields it assigned and the events it emitted before that
  point stay. A method is therefore a function from the object's state to a
  \<open>promise\<close> that carries the state reached.
\<close>

datatype 's promise = Resolved 's | Rejected 's

fun state_of :: "'s promise \<Rightarrow> 's" where
  "state_of (Resolved s) = s"
| "state_of (Rejected s) = s"

fun is_resolved :: "'s promise \<Rightarrow> bool" where
  "is_resolved (Resolved s) = True"
| "is_resolved (Rejected s) = False"

section \<open>The extraction task (src/extraction-task.ts)\<close>

subsection \<open>Tweets and tweet sets\<close>

text \<open>
  Modelled from the spec: the \<^verbatim>\<open>Tweet\<close> interface (interfaces/tweet) is not among the
  sources. The spec gives a record a stable identifier and a body; that is what the
  model keeps. The elements of a \<^verbatim>\<open>TweetSet\<close> are Immutable.js maps (the task calls
  \<^verbatim>\<open>toObject()\<close> on each and names them \<^verbatim>\<open>tweetMapsArray\<close>), and Immutable.js compares
  maps by value: two maps are the same element exactly when all their entries agree.
  Equality of the HOL record is that comparison.
\<close>

record Tweet =
  tweet_id :: string
  tweet_text :: string

text \<open>
  \<^verbatim>\<open>OrderedSet\<close> of Immutable.js: the elements in insertion order, none twice. \<^verbatim>\<open>add\<close> of a
  value that is already present leaves the set as it is; \<^verbatim>\<open>union\<close> adds the elements of
  the other collection one after the other.
\<close>

type_synonym TweetSet = "Tweet list"

definition add_os :: "'a list \<Rightarrow> 'a \<Rightarrow> 'a list" where
  "add_os s v = (if v \<in> set s then s else s @ [v])"

definition union_os :: "'a list \<Rightarrow> 'a list \<Rightarrow> 'a list" where
  "union_os s other = foldl add_os s other"

subsection \<open>Options, events and the record of what a run did\<close>

text \<open>
  \<^verbatim>\<open>maxLimit\<close> is a JavaScript number: an IEEE 754 double. A finite double is a
  rational number, so \<open>Num\<close> carries a rational; the two infinities and NaN are values of
  their own. (The sign of zero is not kept: the task never divides by the limit.) Every
  double is a value of this type; a \<open>Num r\<close> stands for a double when \<open>r\<close> is one.
\<close>

datatype number = Num rat | POSITIVE_INFINITY | NEGATIVE_INFINITY | NaN

text \<open>
  The sum of two doubles is the exact sum, rounded to the nearest double, to the even
  significand on a tie. \<open>pow2 p\<close> is the power of two with the exponent \<open>p\<close>;
  \<open>floor_log2 x\<close> is the exponent \<open>e\<close> of a positive \<open>x\<close>, with
  \<open>pow2 e \<le> x < pow2 (e + 1)\<close>, found from the bit lengths of numerator and denominator.
  A double has 53 significant bits, so the doubles around \<open>x\<close> are the multiples of
  \<open>pow2 (e - 52)\<close>, and of \<open>pow2 (- 1074)\<close> below the normal range; a result of \<open>pow2 1024\<close>
  or more is infinite.
\<close>

definition pow2 :: "int \<Rightarrow> rat" where
  "pow2 p = (if 0 \<le> p then 2 ^ nat p else 1 / 2 ^ nat (- p))"

definition floor_log2 :: "rat \<Rightarrow> int" where
  "floor_log2 x =
     (case quotient_of x of (n, d) \<Rightarrow>
        (let e0 = bitlen n - bitlen d in if x < pow2 e0 then e0 - 1 else e0))"

definition round_half_even :: "rat \<Rightarrow> int" where
  "round_half_even q =
     (let f = \<lfloor>q\<rfloor>; d = q - of_int f
      in if d < 1 / 2 then f else if 1 / 2 < d then f + 1 else if even f then f else f + 1)"

definition nearest_double :: "rat \<Rightarrow> rat" where
  "nearest_double a =
     (let p = max (floor_log2 a - 52) (- 1074)
      in of_int (round_half_even (a / pow2 p)) * pow2 p)"

definition round_double :: "rat \<Rightarrow> number" where
  "round_double x =
     (if x = 0 then Num 0
      else
        (let v = nearest_double \<bar>x\<bar> in
           if pow2 1024 \<le> v then (if 0 < x then POSITIVE_INFINITY else NEGATIVE_INFINITY)
           else if 0 < x then Num v else Num (- v)))"

text \<open>The operator \<^verbatim>\<open>+\<close> on numbers.\<close>

fun js_add :: "number \<Rightarrow> number \<Rightarrow> number" where
  "js_add NaN b = NaN"
| "js_add a NaN = NaN"
| "js_add POSITIVE_INFINITY NEGATIVE_INFINITY = NaN"
| "js_add NEGATIVE_INFINITY POSITIVE_INFINITY = NaN"
| "js_add POSITIVE_INFINITY b = POSITIVE_INFINITY"
| "js_add NEGATIVE_INFINITY b = NEGATIVE_INFINITY"
| "js_add a POSITIVE_INFINITY = POSITIVE_INFINITY"
| "js_add a NEGATIVE_INFINITY = NEGATIVE_INFINITY"
| "js_add (Num a) (Num b) = round_double (a + b)"

record TaskOptions =
  maxLimit :: number
  fileName :: "string option"

datatype js_error = JsError (message: string) (stack: "string option")

record EventCompleteRatio =
  complete :: nat
  total :: number

definition EXPORT_TWEETS :: string where
  "EXPORT_TWEETS = ''extractor:export:tweets''"

definition BOOKMARKED_TWEETS_EXTRACTION :: string where
  "BOOKMARKED_TWEETS_EXTRACTION = ''extractor:tweets:extraction''"

definition BOOKMARKED_TWEETS_EXTRACT_COMPLETE :: string where
  "BOOKMARKED_TWEETS_EXTRACT_COMPLETE = ''extractor:tweets:complete''"

definition PROGRESS_EVENTS :: "string list" where
  "PROGRESS_EVENTS =
     [BOOKMARKED_TWEETS_EXTRACTION, BOOKMARKED_TWEETS_EXTRACT_COMPLETE, EXPORT_TWEETS]"

text \<open>
  Modelled from the spec: the events of the page manager (\<^verbatim>\<open>ProgressEvent\<close>, \<^verbatim>\<open>MessageEvent\<close>)
  and their method \<^verbatim>\<open>handle\<close> come from interfaces/progress-event-emitter, which is not
  among the sources. The page manager emits progress events with a tag of its own and
  message events; \<^verbatim>\<open>handle\<close> emits the event again on the task's channel.
\<close>

datatype pm_event = ProgressEvent string | MessageEvent string

text \<open>
  Everything the task does to the outside is appended to a log, in the order in which
  it happens: the events it emits itself (\<open>Progress\<close>, \<open>Message\<close>), the events of the page
  manager that it emits again (\<open>Forwarded\<close>), the two \<^verbatim>\<open>unsubscribe\<close> calls, the calls to the
  exporters and to the page manager, and the callbacks of the options.
\<close>

datatype action =
    Progress string "EventCompleteRatio option"
  | Message string
  | Forwarded pm_event
  | UnsubscribeEventForwarder
  | UnsubscribeTweetStream
  | JSONExport string "Tweet list"
  | StdOutExport "Tweet list"
  | ClosePageManager
  | SuccessCallback
  | ErrorCallback js_error

text \<open>
  A \<^verbatim>\<open>Subscription\<close> of RxJS is open until \<^verbatim>\<open>unsubscribe()\<close> closes it; a subscriber receives
  nothing through a closed one.
\<close>

record Subscription =
  is_closed :: bool

definition new_Subscription :: Subscription where
  "new_Subscription = \<lparr>is_closed = False\<rparr>"

definition unsubscribe :: "Subscription \<Rightarrow> Subscription" where
  "unsubscribe s = s\<lparr>is_closed := True\<rparr>"

text \<open>
  The fields \<^verbatim>\<open>eventForwarder\<close>, \<^verbatim>\<open>tweetStream\<close> and \<^verbatim>\<open>tweets\<close> with their initialisers. The
  constructor subscribes to the \<^verbatim>\<open>progress\<close> and \<^verbatim>\<open>message\<close> events of the page manager
  (\<^verbatim>\<open>createEventObservable\<close>) with the handler \<^verbatim>\<open>event.handle(this)\<close>. The \<^verbatim>\<open>Subscription\<close> that
  this \<^verbatim>\<open>subscribe\<close> returns is assigned to no field; \<open>constructorSubscription\<close> is its
  state. \<^verbatim>\<open>eventForwarder\<close> stays the \<^verbatim>\<open>new Subscription()\<close> of its initialiser.
\<close>

record ExtractionTask =
  tweets :: TweetSet
  eventForwarder :: Subscription
  tweetStream :: Subscription
  constructorSubscription :: Subscription
  log :: "action list"

definition new_ExtractionTask :: ExtractionTask where
  "new_ExtractionTask =
     \<lparr>tweets = [], eventForwarder = new_Subscription, tweetStream = new_Subscription,
      constructorSubscription = new_Subscription, log = []\<rparr>"

definition record_action :: "action \<Rightarrow> ExtractionTask \<Rightarrow> ExtractionTask" where
  "record_action a t = t\<lparr>log := log t @ [a]\<rparr>"

text \<open>
  Modelled from the spec: \<^verbatim>\<open>emitProgressEvent\<close> and \<^verbatim>\<open>emitMessageEvent\<close> are inherited from
  \<^verbatim>\<open>Progressable\<close>, which is not among the sources; they put one progress or message event
  on the progress channel.
\<close>

definition emitProgressEvent ::
  "string \<Rightarrow> EventCompleteRatio option \<Rightarrow> ExtractionTask \<Rightarrow> ExtractionTask" where
  "emitProgressEvent tag ratio t = record_action (Progress tag ratio) t"

definition emitMessageEvent :: "string \<Rightarrow> ExtractionTask \<Rightarrow> ExtractionTask" where
  "emitMessageEvent msg t = record_action (Message msg) t"

text \<open>
  The handler of the constructor's subscription: while that subscription is open, every
  event of the page manager is emitted again.
\<close>

definition handle :: "pm_event \<Rightarrow> ExtractionTask \<Rightarrow> ExtractionTask" where
  "handle event t = record_action (Forwarded event) t"

definition page_manager_emits :: "pm_event list \<Rightarrow> ExtractionTask \<Rightarrow> ExtractionTask" where
  "page_manager_emits events t =
     (if is_closed (constructorSubscription t) then t
      else foldl (\<lambda>t' event. handle event t') t events)"

text \<open>
  The collaborators the task awaits: whether the JSON exporter, the console exporter
  and \<^verbatim>\<open>bookmarksPageManager.close()\<close> resolve (\<open>True\<close>) or reject, and the events that the
  page manager emits while it opens and while it closes the page (\<^verbatim>\<open>BookmarksPageManager\<close>
  is not among the sources; \<^verbatim>\<open>open()\<close> and \<^verbatim>\<open>close()\<close> are the two calls the task makes).
\<close>

record world =
  json_export :: "string \<Rightarrow> Tweet list \<Rightarrow> bool"
  stdout_export :: "Tweet list \<Rightarrow> bool"
  close_ok :: bool
  open_events :: "pm_event list"
  close_events :: "pm_event list"

subsection \<open>numEvents\<close>

text \<open>
  \<^verbatim>\<open>BookmarksPageManager.PROGRESS_EVENTS\<close> is not among the sources: the list is a
  parameter. The two lengths are array lengths, and the difference \<open>3 - 1\<close> is exact; the
  two sums are sums of doubles.
\<close>

definition numEvents :: "string list \<Rightarrow> TaskOptions \<Rightarrow> number" where
  "numEvents BookmarksPageManager_PROGRESS_EVENTS options =
     (let pageManagerEvents = Num (of_nat (length BookmarksPageManager_PROGRESS_EVENTS));
          taskSpecificEvents = Num (of_nat (length PROGRESS_EVENTS) - 1);
          taskSpecificEvents' =
            (if maxLimit options \<noteq> POSITIVE_INFINITY
             then js_add taskSpecificEvents (maxLimit options)
             else taskSpecificEvents)
      in js_add pageManagerEvents taskSpecificEvents')"

subsection \<open>The operators of the stream\<close>

text \<open>
  An observable delivers \<open>Next\<close> values and then at most one of \<open>Complete\<close> and \<open>Error\<close>.
  A source is given by the notifications it would deliver to a subscriber that stays
  subscribed; a list without a final \<open>Complete\<close> or \<open>Error\<close> is a source that has not
  ended.
\<close>

datatype 'a notification = Next 'a | Complete | Error js_error

fun terminal :: "'a notification \<Rightarrow> bool" where
  "terminal (Next v) = False"
| "terminal Complete = True"
| "terminal (Error e) = True"

text \<open>
  \<^verbatim>\<open>reduce(accumulator)\<close> of RxJS, without a seed: the first value starts the accumulator,
  every later value is folded into it, and nothing is passed on while the source runs.
  When the source completes, the accumulated value (if there was any value) is passed on,
  followed by the completion. An error is passed on at once, without a value.
\<close>

fun reduce_step ::
  "('a \<Rightarrow> 'a \<Rightarrow> 'a) \<Rightarrow> 'a option \<Rightarrow> 'a notification \<Rightarrow> 'a option \<times> 'a notification list" where
  "reduce_step f None (Next v) = (Some v, [])"
| "reduce_step f (Some acc) (Next v) = (Some (f acc v), [])"
| "reduce_step f None Complete = (None, [Complete])"
| "reduce_step f (Some acc) Complete = (Some acc, [Next acc, Complete])"
| "reduce_step f acc (Error e) = (acc, [Error e])"

text \<open>
  \<^verbatim>\<open>takeWhile(predicate)\<close> of RxJS (not inclusive): a value that satisfies the predicate is
  passed on; the first value that does not is dropped, the subscriber is completed and the
  source is unsubscribed.
\<close>

fun takeWhile_op :: "('a \<Rightarrow> bool) \<Rightarrow> 'a notification list \<Rightarrow> 'a notification list" where
  "takeWhile_op p [] = []"
| "takeWhile_op p (Next v # ns) = (if p v then Next v # takeWhile_op p ns else [Complete])"
| "takeWhile_op p (Complete # ns) = [Complete]"
| "takeWhile_op p (Error e # ns) = [Error e]"

text \<open>
  \<^verbatim>\<open>currentTweets.size <= maxLimit\<close>: a comparison with NaN is false.
\<close>

fun within_limit :: "number \<Rightarrow> TweetSet \<Rightarrow> bool" where
  "within_limit POSITIVE_INFINITY currentTweets = True"
| "within_limit (Num l) currentTweets = (of_nat (length currentTweets) \<le> l)"
| "within_limit NEGATIVE_INFINITY currentTweets = False"
| "within_limit NaN currentTweets = False"

text \<open>
  \<^verbatim>\<open>tweets$\<close> of \<^verbatim>\<open>run\<close>: the source is the stream of batches that \<^verbatim>\<open>extractor.extract(page)\<close>
  delivers once \<^verbatim>\<open>bookmarksPageManager.open()\<close> has resolved (an \<open>Error\<close> alone when it
  rejects). Each notification of the source goes through \<^verbatim>\<open>reduce\<close> and then
  \<^verbatim>\<open>takeWhile\<close>; the chain stays subscribed to the source until a terminal notification
  reaches the observer. The result is what the observer receives, and the number of
  batches the chain took from the source.
\<close>

fun pulls :: "'a notification \<Rightarrow> nat" where
  "pulls (Next v) = 1"
| "pulls Complete = 0"
| "pulls (Error e) = 0"

fun tweets_stream ::
  "number \<Rightarrow> TweetSet option \<Rightarrow> TweetSet notification list \<Rightarrow> TweetSet notification list \<times> nat" where
  "tweets_stream l acc [] = ([], 0)"
| "tweets_stream l acc (n # ns) =
     (case reduce_step union_os acc n of (acc', reduced) \<Rightarrow>
        (let delivered = takeWhile_op (within_limit l) reduced in
           if list_ex terminal delivered then (delivered, pulls n)
           else (case tweets_stream l acc' ns of (later, k) \<Rightarrow> (delivered @ later, pulls n + k))))"

subsection \<open>The observer and stop()\<close>

definition onExtractTweets :: "TaskOptions \<Rightarrow> TweetSet \<Rightarrow> ExtractionTask \<Rightarrow> ExtractionTask" where
  "onExtractTweets options newTweets t =
     (let t1 = t\<lparr>tweets := newTweets\<rparr> in
        if maxLimit options = POSITIVE_INFINITY then t1
        else
          emitProgressEvent BOOKMARKED_TWEETS_EXTRACTION
            (Some \<lparr>complete = length (tweets t1), total = maxLimit options\<rparr>) t1)"

definition onError :: "js_error \<Rightarrow> ExtractionTask \<Rightarrow> ExtractionTask" where
  "onError err t =
     (let t1 = emitMessageEvent (message err) t;
          t2 = (case stack err of None \<Rightarrow> t1 | Some s \<Rightarrow> emitMessageEvent s t1)
      in record_action (ErrorCallback err) t2)"

text \<open>
  \<^verbatim>\<open>this.eventForwarder.unsubscribe()\<close> and \<^verbatim>\<open>this.tweetStream.unsubscribe()\<close>: each closes the
  subscription its field holds. No method of the class reaches the constructor's
  subscription.
\<close>

definition stopForwardingEvents :: "ExtractionTask \<Rightarrow> ExtractionTask" where
  "stopForwardingEvents t =
     record_action UnsubscribeEventForwarder
       (t\<lparr>eventForwarder := unsubscribe (eventForwarder t)\<rparr>)"

definition stopStreamingTweets :: "ExtractionTask \<Rightarrow> ExtractionTask" where
  "stopStreamingTweets t =
     record_action UnsubscribeTweetStream (t\<lparr>tweetStream := unsubscribe (tweetStream t)\<rparr>)"

definition emitCompleteEvent :: "ExtractionTask \<Rightarrow> ExtractionTask" where
  "emitCompleteEvent t = emitProgressEvent BOOKMARKED_TWEETS_EXTRACT_COMPLETE None t"

text \<open>
  \<^verbatim>\<open>Array.prototype.slice(0, end)\<close>: \<^verbatim>\<open>end\<close> is cut to an integer, towards zero (NaN counts
  as 0); a negative \<^verbatim>\<open>end\<close> counts from the end of the array, \<open>+\<infinity>\<close> keeps everything and
  \<open>-\<infinity>\<close> nothing.
\<close>

definition toInteger :: "rat \<Rightarrow> int" where
  "toInteger e = (if 0 \<le> e then \<lfloor>e\<rfloor> else \<lceil>e\<rceil>)"

fun slice0 :: "'a list \<Rightarrow> number \<Rightarrow> 'a list" where
  "slice0 xs POSITIVE_INFINITY = xs"
| "slice0 xs (Num e) =
     (let relativeEnd = toInteger e in
        if relativeEnd < 0 then take (nat (int (length xs) + relativeEnd)) xs
        else take (nat relativeEnd) xs)"
| "slice0 xs NEGATIVE_INFINITY = []"
| "slice0 xs NaN = []"

text \<open>\<^verbatim>\<open>toObject()\<close> turns a map into the plain object with the same entries.\<close>

definition tweetMapsToTweets :: "TweetSet \<Rightarrow> number \<Rightarrow> Tweet list" where
  "tweetMapsToTweets tweetSet limit = slice0 tweetSet limit"

text \<open>
  \<^verbatim>\<open>if(fileName)\<close> is false for a missing and for an empty file name. The \<^verbatim>\<open>try\<close> block
  covers the export and the progress event; the \<^verbatim>\<open>catch\<close> emits the message.
\<close>

definition exportTweets :: "world \<Rightarrow> TaskOptions \<Rightarrow> Tweet list \<Rightarrow> ExtractionTask \<Rightarrow> ExtractionTask" where
  "exportTweets w options tweetsArray t =
     (case fileName options of
        None \<Rightarrow> emitProgressEvent EXPORT_TWEETS None t
      | Some f \<Rightarrow>
          if f = [] then emitProgressEvent EXPORT_TWEETS None t
          else
            (let t1 = record_action (JSONExport f tweetsArray) t in
               if json_export w f tweetsArray then emitProgressEvent EXPORT_TWEETS None t1
               else emitMessageEvent ''Failed to export tweets to file.'' t1))"

definition printTweetsToStdOut :: "world \<Rightarrow> Tweet list \<Rightarrow> ExtractionTask \<Rightarrow> ExtractionTask promise" where
  "printTweetsToStdOut w tweetsArray t =
     (let t1 = record_action (StdOutExport tweetsArray) t in
        if stdout_export w tweetsArray then Resolved t1 else Rejected t1)"

definition closePageManager :: "world \<Rightarrow> ExtractionTask \<Rightarrow> ExtractionTask promise" where
  "closePageManager w t =
     (let t1 = record_action ClosePageManager t;
          t2 = page_manager_emits (close_events w) t1
      in if close_ok w then Resolved t2 else Rejected t2)"

definition stop :: "world \<Rightarrow> TaskOptions \<Rightarrow> ExtractionTask \<Rightarrow> ExtractionTask promise" where
  "stop w options t =
     (let t1 = stopForwardingEvents t;
          t2 = stopStreamingTweets t1;
          t3 = emitCompleteEvent t2;
          tweetsArray = tweetMapsToTweets (tweets t3) (maxLimit options);
          t4 = exportTweets w options tweetsArray t3
      in case printTweetsToStdOut w tweetsArray t4 of
           Rejected t5 \<Rightarrow> Rejected t5
         | Resolved t5 \<Rightarrow> closePageManager w t5)"

definition onComplete :: "world \<Rightarrow> TaskOptions \<Rightarrow> ExtractionTask \<Rightarrow> ExtractionTask promise" where
  "onComplete w options t =
     (case stop w options t of
        Rejected t1 \<Rightarrow> Rejected t1
      | Resolved t1 \<Rightarrow> Resolved (record_action SuccessCallback t1))"

text \<open>
  The observer of \<^verbatim>\<open>run\<close>: \<^verbatim>\<open>next\<close>, \<^verbatim>\<open>error\<close> and \<^verbatim>\<open>complete\<close>. RxJS closes the subscription
  after the \<^verbatim>\<open>error\<close> handler has returned (after \<^verbatim>\<open>complete\<close> too, where \<^verbatim>\<open>stop()\<close> has
  closed it already).
\<close>

fun tweetsObserver ::
  "world \<Rightarrow> TaskOptions \<Rightarrow> TweetSet notification list \<Rightarrow> ExtractionTask \<Rightarrow> ExtractionTask promise" where
  "tweetsObserver w options [] t = Resolved t"
| "tweetsObserver w options (Next s # ns) t = tweetsObserver w options ns (onExtractTweets options s t)"
| "tweetsObserver w options (Complete # ns) t = onComplete w options t"
| "tweetsObserver w options (Error e # ns) t =
     (let t1 = onError e t in Resolved (t1\<lparr>tweetStream := unsubscribe (tweetStream t1)\<rparr>))"

text \<open>
  \<^verbatim>\<open>run()\<close> calls \<^verbatim>\<open>bookmarksPageManager.open()\<close> and assigns the subscription of the stream to
  \<^verbatim>\<open>tweetStream\<close>; the page manager's events and the notifications of the stream arrive
  after that.
\<close>

definition run ::
  "world \<Rightarrow> TaskOptions \<Rightarrow> TweetSet notification list \<Rightarrow> ExtractionTask \<Rightarrow> ExtractionTask promise" where
  "run w options source t =
     (let t1 = t\<lparr>tweetStream := new_Subscription\<rparr>;
          t2 = page_manager_emits (open_events w) t1
      in tweetsObserver w options (fst (tweets_stream (maxLimit options) None source)) t2)"

text \<open>The sets handed to \<^verbatim>\<open>onExtractTweets\<close>, and the batches taken from the source.\<close>

fun values_of :: "'a notification list \<Rightarrow> 'a list" where
  "values_of [] = []"
| "values_of (Next v # ns) = v # values_of ns"
| "values_of (Complete # ns) = values_of ns"
| "values_of (Error e # ns) = values_of ns"

definition emissions :: "TaskOptions \<Rightarrow> TweetSet notification list \<Rightarrow> TweetSet list" where
  "emissions options source = values_of (fst (tweets_stream (maxLimit options) None source))"

definition pulled :: "TaskOptions \<Rightarrow> TweetSet notification list \<Rightarrow> nat" where
  "pulled options source = snd (tweets_stream (maxLimit options) None source)"

section \<open>The client (the session controller)\<close>

text \<open>
  The second source file: the class \<^verbatim>\<open>Client\<close>, which owns a \<^verbatim>\<open>PageManager\<close> and keeps the
  login state.
\<close>

datatype State = Inactive | LoggedOut | Needs2FACode | NeedsConfirmationCode | LoggedIn

text \<open>
  The events of \<^verbatim>\<open>ClientEvents\<close>. No \<^verbatim>\<open>emit\<close> of the class passes the optional rest
  arguments, so an event carries its message only.
\<close>

datatype ClientEvent =
    actionRequired string
  | internalError string
  | userError string
  | success

text \<open>
  Modelled from the spec: \<^verbatim>\<open>PageManager\<close>, \<^verbatim>\<open>PATHNAMES\<close> and \<^verbatim>\<open>Credentials\<close> are imported from
  files that are not among the sources. The page manager drives the browser; what the
  client sees of it is whether an awaited call resolves and which of the \<^verbatim>\<open>PATHNAMES\<close> the
  current URL has afterwards. Both are functions of the calls made so far, so the page
  manager's state is the list of these calls, and the browser with the site behind it is
  a parameter.
\<close>

datatype pathname = Bookmarks | ChallengeCode | TwoFaCode | LoggedOutPath

type_synonym Credentials = "string \<times> string"

datatype page_call =
    PM_logIn Credentials
  | PM_refreshWithBookmarksRedirect
  | PM_enterConfirmationCode string
  | PM_enterTwoFactorCode string

record browser =
  rejects :: "page_call list \<Rightarrow> bool"
  urlHasPath :: "page_call list \<Rightarrow> pathname \<Rightarrow> bool"

record Client =
  pageManager :: "page_call list"
  pageManagerReady :: bool
  state :: State
  lastAuthAttemptFailed :: bool
  lastCodeAttemptFailed :: bool
  emitted :: "ClientEvent list"

text \<open>The field initialisers and the constructor.\<close>

definition new_Client :: Client where
  "new_Client =
     \<lparr>pageManager = [], pageManagerReady = False, state = LoggedOut,
      lastAuthAttemptFailed = False, lastCodeAttemptFailed = False, emitted = []\<rparr>"

definition emit :: "ClientEvent \<Rightarrow> Client \<Rightarrow> Client" where
  "emit e c = c\<lparr>emitted := emitted c @ [e]\<rparr>"

definition await_page :: "browser \<Rightarrow> page_call \<Rightarrow> Client \<Rightarrow> Client promise" where
  "await_page b k c =
     (let c1 = c\<lparr>pageManager := pageManager c @ [k]\<rparr> in
        if rejects b (pageManager c1) then Rejected c1 else Resolved c1)"

definition currentUrlHasPath :: "browser \<Rightarrow> Client \<Rightarrow> pathname \<Rightarrow> bool" where
  "currentUrlHasPath b c p = urlHasPath b (pageManager c) p"

definition assertPageManagerReady :: "Client \<Rightarrow> Client" where
  "assertPageManagerReady c =
     (let errorMessage =
        concat [''Page manager had not been initialized correctly.'',
                ''The page manager is necessary to sign in on your behalf to Twitter and begin the process of fetching bookmarks.'']
      in if \<not> pageManagerReady c then emit (internalError errorMessage) c else c)"

definition handleLoginIssue :: "browser \<Rightarrow> Client \<Rightarrow> Client promise" where
  "handleLoginIssue b c =
     (if currentUrlHasPath b c ChallengeCode then
        Resolved (emit (actionRequired ''Your confirmation code is necessary to proceed.'')
                    (c\<lparr>state := NeedsConfirmationCode\<rparr>))
      else if currentUrlHasPath b c TwoFaCode then
        Resolved (emit (actionRequired ''Your 2FA code is necessary to proceed. Please check your device.'')
                    (c\<lparr>state := Needs2FACode\<rparr>))
      else
        (case await_page b PM_refreshWithBookmarksRedirect (c\<lparr>lastAuthAttemptFailed := True\<rparr>) of
           Rejected c1 \<Rightarrow> Rejected c1
         | Resolved c1 \<Rightarrow> Resolved (emit (userError ''Your credentials were incorrect.'') c1)))"

definition logIn :: "browser \<Rightarrow> Credentials \<Rightarrow> Client \<Rightarrow> Client promise" where
  "logIn b credentials c =
     (if \<not> pageManagerReady c then
        Resolved (emit (internalError ''The browser hasn't been initialized yet.'') c)
      else
        (case await_page b (PM_logIn credentials) (c\<lparr>lastAuthAttemptFailed := False\<rparr>) of
           Rejected c1 \<Rightarrow> Rejected c1
         | Resolved c1 \<Rightarrow>
             if \<not> currentUrlHasPath b c1 Bookmarks then handleLoginIssue b c1
             else Resolved (emit success (c1\<lparr>state := LoggedIn\<rparr>))))"

definition enterConfirmationCode :: "browser \<Rightarrow> string \<Rightarrow> Client \<Rightarrow> Client promise" where
  "enterConfirmationCode b code c =
     (let c1 = assertPageManagerReady c in
        case await_page b (PM_enterConfirmationCode code) (c1\<lparr>lastCodeAttemptFailed := False\<rparr>) of
          Rejected c2 \<Rightarrow> Rejected c2
        | Resolved c2 \<Rightarrow>
            if currentUrlHasPath b c2 ChallengeCode then
              Resolved (emit (userError ''Your challenge code was incorrect.'')
                          (c2\<lparr>lastCodeAttemptFailed := True\<rparr>))
            else Resolved c2)"

definition enterTwoFactorCode :: "browser \<Rightarrow> string \<Rightarrow> Client \<Rightarrow> Client promise" where
  "enterTwoFactorCode b code c =
     (let c1 = assertPageManagerReady c in
        case await_page b (PM_enterTwoFactorCode code) (c1\<lparr>lastCodeAttemptFailed := False\<rparr>) of
          Rejected c2 \<Rightarrow> Rejected c2
        | Resolved c2 \<Rightarrow>
            if currentUrlHasPath b c2 TwoFaCode then
              Resolved (emit (userError ''Your 2FA code was incorrect.'')
                          (c2\<lparr>lastCodeAttemptFailed := True\<rparr>))
            else Resolved c2)"

section \<open>Observations on a log, and the inputs of the examples\<close>

text \<open>
  The events of the progress channel among the actions of a log, and those of them
  that the task emits itself.
\<close>

fun is_channel_event :: "action \<Rightarrow> bool" where
  "is_channel_event (Progress tag ratio) = True"
| "is_channel_event (Message msg) = True"
| "is_channel_event (Forwarded event) = True"
| "is_channel_event a = False"

fun is_own_event :: "action \<Rightarrow> bool" where
  "is_own_event (Progress tag ratio) = True"
| "is_own_event (Message msg) = True"
| "is_own_event a = False"

text \<open>The channel events that follow the first extraction-complete event of a log.\<close>

fun events_after_complete :: "action list \<Rightarrow> action list" where
  "events_after_complete [] = []"
| "events_after_complete (a # as) =
     (if a = Progress BOOKMARKED_TWEETS_EXTRACT_COMPLETE None then filter is_channel_event as
      else events_after_complete as)"

text \<open>
  A world in which every collaborator resolves and the page manager emits nothing, one
  whose file export rejects, and one whose page manager reports that it closes.
\<close>

definition quiet_world :: world where
  "quiet_world =
     \<lparr>json_export = (\<lambda>f ts. True), stdout_export = (\<lambda>ts. True), close_ok = True,
      open_events = [], close_events = []\<rparr>"

definition full_disk_world :: world where
  "full_disk_world =
     \<lparr>json_export = (\<lambda>f ts. False), stdout_export = (\<lambda>ts. True), close_ok = True,
      open_events = [], close_events = []\<rparr>"

definition talking_world :: world where
  "talking_world =
     \<lparr>json_export = (\<lambda>f ts. True), stdout_export = (\<lambda>ts. True), close_ok = True,
      open_events = [ProgressEvent ''page:open''], close_events = [ProgressEvent ''page:close'']\<rparr>"

definition tw :: "string \<Rightarrow> Tweet" where
  "tw i = \<lparr>tweet_id = i, tweet_text = ''text of '' @ i\<rparr>"

text \<open>
  The extraction-progress events (the ones that carry a ratio), and the two kinds of
  events about the extraction: progress and completion.
\<close>

fun is_extraction_progress :: "action \<Rightarrow> bool" where
  "is_extraction_progress (Progress tag ratio) = (tag = BOOKMARKED_TWEETS_EXTRACTION)"
| "is_extraction_progress a = False"

fun is_extraction_event :: "action \<Rightarrow> bool" where
  "is_extraction_event (Progress tag ratio) =
     (tag = BOOKMARKED_TWEETS_EXTRACTION \<or> tag = BOOKMARKED_TWEETS_EXTRACT_COMPLETE)"
| "is_extraction_event a = False"

text \<open>Three batches of three tweets each, nine identifiers in all.\<close>

definition batch1 :: TweetSet where
  "batch1 = [tw ''1'', tw ''2'', tw ''3'']"

definition batch2 :: TweetSet where
  "batch2 = [tw ''4'', tw ''5'', tw ''6'']"

definition batch3 :: TweetSet where
  "batch3 = [tw ''7'', tw ''8'', tw ''9'']"

text \<open>
  A browser in which no call rejects and whose URL has the one given path, whatever was
  called.
\<close>

definition browser_at :: "pathname \<Rightarrow> browser" where
  "browser_at here = \<lparr>rejects = (\<lambda>calls. False), urlHasPath = (\<lambda>calls p. p = here)\<rparr>"

section \<open>Rounding to a double\<close>

lemma pow2_powi: "pow2 p = 2 powi p"
  unfolding pow2_def power_int_def by (simp add: power_one_over inverse_eq_divide)

lemma pow2_add: "pow2 (a + b) = pow2 a * pow2 b"
  by (simp add: pow2_powi power_int_add)

lemma pow2_pos: "0 < pow2 p"
  by (simp add: pow2_def)

lemma pow2_nat: "0 \<le> p \<Longrightarrow> pow2 p = of_int (2 ^ nat p)"
  by (simp add: pow2_def)

text \<open>\<open>floor_log2\<close> is the binary exponent of a positive rational.\<close>

lemma floor_log2_bounds:
  assumes "0 < x"
  shows "pow2 (floor_log2 x) \<le> x \<and> x < pow2 (floor_log2 x + 1)"
proof -
  obtain n d where q: "quotient_of x = (n, d)"
    by (cases "quotient_of x")
  then have d: "0 < d"
    by (rule quotient_of_denom_pos)
  from q have x: "x = of_int n / of_int d"
    by (rule quotient_of_div)
  with assms d have n: "0 < n"
    by (simp add: zero_less_divide_iff)
  have bn: "1 \<le> bitlen n" and bd: "1 \<le> bitlen d"
    using n d by (simp_all add: bitlen_alt_def)
  from bitlen_bounds[OF n] have "of_int (2 ^ nat (bitlen n - 1)) \<le> (of_int n :: rat)"
    and "(of_int n :: rat) < of_int (2 ^ nat (bitlen n))"
    by (simp_all only: of_int_le_iff of_int_less_iff)
  then have nb: "pow2 (bitlen n - 1) \<le> of_int n" "of_int n < pow2 (bitlen n)"
    using bn by (simp_all add: pow2_nat)
  from bitlen_bounds[OF d] have "of_int (2 ^ nat (bitlen d - 1)) \<le> (of_int d :: rat)"
    and "(of_int d :: rat) < of_int (2 ^ nat (bitlen d))"
    by (simp_all only: of_int_le_iff of_int_less_iff)
  then have db: "pow2 (bitlen d - 1) \<le> of_int d" "of_int d < pow2 (bitlen d)"
    using bd by (simp_all add: pow2_nat)
  define e0 where "e0 = bitlen n - bitlen d"
  have dpos: "0 < (of_int d :: rat)"
    using d by simp
  have lo: "pow2 (e0 - 1) \<le> x"
  proof -
    have "pow2 (e0 - 1) * of_int d \<le> pow2 (e0 - 1) * pow2 (bitlen d)"
      using db(2) pow2_pos[of "e0 - 1"] by (simp add: less_imp_le)
    also have "\<dots> = pow2 (bitlen n - 1)"
      by (simp add: e0_def flip: pow2_add)
    also have "\<dots> \<le> of_int n"
      by (rule nb(1))
    finally show ?thesis
      using dpos by (simp add: x pos_le_divide_eq)
  qed
  have hi: "x < pow2 (e0 + 1)"
  proof -
    have "of_int n < pow2 (bitlen n)"
      by (rule nb(2))
    also have "\<dots> = pow2 (e0 + 1) * pow2 (bitlen d - 1)"
      by (simp add: e0_def flip: pow2_add)
    also have "\<dots> \<le> pow2 (e0 + 1) * of_int d"
      using db(1) pow2_pos[of "e0 + 1"] by simp
    finally show ?thesis
      using dpos by (simp add: x pos_divide_less_eq)
  qed
  show ?thesis
    using lo hi q by (simp add: floor_log2_def Let_def flip: e0_def)
qed

text \<open>\<open>round_half_even\<close> gives a nearest integer.\<close>

lemma round_half_even_nearest: "\<bar>of_int (round_half_even q) - q\<bar> \<le> 1 / 2"
proof -
  define d where "d = q - of_int \<lfloor>q\<rfloor>"
  have d: "0 \<le> d" "d < 1"
    unfolding d_def by linarith+
  have lo: "of_int \<lfloor>q\<rfloor> - q = - d" and hi: "of_int \<lfloor>q\<rfloor> + 1 - q = 1 - d"
    by (simp_all add: d_def)
  have r: "round_half_even q =
      (if d < 1 / 2 then \<lfloor>q\<rfloor> else if 1 / 2 < d then \<lfloor>q\<rfloor> + 1
       else if even \<lfloor>q\<rfloor> then \<lfloor>q\<rfloor> else \<lfloor>q\<rfloor> + 1)"
    by (simp add: round_half_even_def Let_def d_def)
  show ?thesis
    unfolding r using d by (auto simp: lo hi)
qed

lemma round_half_even_of_int: "round_half_even (of_int m) = m"
  by (simp add: round_half_even_def)

text \<open>
  The doubles next to \<open>0.1\<close> and the rounding of a tie: \<open>2 ^ 53 + 1\<close> lies half way
  between two doubles and goes to the even one.
\<close>

lemma round_double_examples:
  "round_double (1 / 10) = Num (3602879701896397 / 2 ^ 55)"
  "round_double (2 ^ 53 + 1) = Num (2 ^ 53)"
  "round_double (2 ^ 53 + 3) = Num (2 ^ 53 + 4)"
  "round_double (- (2 ^ 53) - 3) = Num (- (2 ^ 53) - 4)"
  by code_simp+

lemma floor_log2_of_int:
  assumes "0 < a"
  shows "floor_log2 (of_int a) = bitlen a - 1"
proof -
  have b: "2 ^ nat (bitlen a - 1) \<le> a"
    using bitlen_bounds[OF assms] by simp
  have "1 \<le> bitlen a"
    using assms by (simp add: bitlen_alt_def)
  then have "pow2 (bitlen a - 1) = of_int (2 ^ nat (bitlen a - 1))"
    by (simp add: pow2_def)
  also have "\<dots> \<le> of_int a"
    using b by (simp only: of_int_le_iff)
  finally have "\<not> (of_int a :: rat) < pow2 (bitlen a - 1)"
    by simp
  moreover have "bitlen 1 = 1"
    by (simp add: bitlen_alt_def)
  ultimately show ?thesis
    by (simp add: floor_log2_def Let_def)
qed

text \<open>An integer below \<open>2 ^ 53\<close> has at most 53 bits: it is a double.\<close>

lemma nearest_double_small:
  assumes "0 < a" and "a < 2 ^ 53"
  shows "nearest_double (of_int a) = of_int a"
proof -
  have "2 ^ nat (bitlen a - 1) \<le> a"
    using bitlen_bounds[OF assms(1)] by simp
  with assms(2) have "(2::int) ^ nat (bitlen a - 1) < 2 ^ 53"
    by linarith
  moreover have "(1::int) < 2"
    by simp
  ultimately have "nat (bitlen a - 1) < 53"
    by (rule power_less_imp_less_exp [rotated])
  then have le: "bitlen a - 1 \<le> 52"
    by linarith
  have ge: "1 \<le> bitlen a"
    using assms(1) by (simp add: bitlen_alt_def)
  define k where "k = nat (52 - (bitlen a - 1))"
  have p: "max (floor_log2 (of_int a) - 52) (- 1074) = - int k"
    using le ge assms(1) by (simp add: floor_log2_of_int k_def)
  have pw: "pow2 (- int k) = 1 / 2 ^ k"
    by (cases "k = 0") (simp_all add: pow2_def)
  have q: "(of_int a :: rat) / pow2 (- int k) = of_int (a * 2 ^ k)"
    by (simp add: pw)
  have "of_int (round_half_even ((of_int a :: rat) / pow2 (- int k))) * pow2 (- int k)
          = of_int a"
    by (simp only: q round_half_even_of_int) (simp add: pw)
  then show ?thesis
    by (simp add: nearest_double_def p Let_def)
qed

lemma nearest_double_2_53: "nearest_double (2 ^ 53) = 2 ^ 53"
  by code_simp

lemma round_double_int:
  assumes "\<bar>n\<bar> \<le> 2 ^ 53"
  shows "round_double (of_int n) = Num (of_int n)"
proof (cases "n = 0")
  case True
  then show ?thesis by (simp add: round_double_def)
next
  case False
  define a where "a = \<bar>n\<bar>"
  have a: "0 < a" "a \<le> 2 ^ 53" "\<bar>of_int n :: rat\<bar> = of_int a"
    using False assms by (simp_all add: a_def)
  have v: "nearest_double (of_int a) = of_int a"
  proof (cases "a = 2 ^ 53")
    case True
    then show ?thesis using nearest_double_2_53 by simp
  next
    case False
    with a have "a < 2 ^ 53" by simp
    with a(1) show ?thesis by (rule nearest_double_small)
  qed
  have "(of_int a :: rat) \<le> of_int (2 ^ 53)"
    using a(2) by (simp only: of_int_le_iff)
  also have "\<dots> < pow2 1024"
    by (simp add: pow2_def)
  finally have small: "\<not> pow2 1024 \<le> (of_int a :: rat)"
    by simp
  show ?thesis
  proof (cases "0 < n")
    case True
    then have "a = n" by (simp add: a_def)
    with True small v a(3) False show ?thesis
      by (simp add: round_double_def Let_def)
  next
    case neg: False
    with False have "n < 0" "of_int a = - (of_int n :: rat)" by (simp_all add: a_def)
    with small v a(3) False show ?thesis
      by (simp add: round_double_def Let_def)
  qed
qed

section \<open>stop(): order of the steps, and a failing file export\<close>

lemma log_record_action: "log (record_action a t) = log t @ [a]"
  by (simp add: record_action_def)

lemma fields_record_action:
  "tweets (record_action a t) = tweets t"
  "eventForwarder (record_action a t) = eventForwarder t"
  "tweetStream (record_action a t) = tweetStream t"
  "constructorSubscription (record_action a t) = constructorSubscription t"
  by (simp_all add: record_action_def)

lemma log_forwarded:
  "log (foldl (\<lambda>t' event. handle event t') t events) = log t @ map Forwarded events"
  by (induction events arbitrary: t) (simp_all add: handle_def log_record_action)

lemma fields_forwarded:
  "tweets (foldl (\<lambda>t' event. handle event t') t events) = tweets t"
  "eventForwarder (foldl (\<lambda>t' event. handle event t') t events) = eventForwarder t"
  "tweetStream (foldl (\<lambda>t' event. handle event t') t events) = tweetStream t"
  "constructorSubscription (foldl (\<lambda>t' event. handle event t') t events)
     = constructorSubscription t"
  by (induction events arbitrary: t) (simp_all add: handle_def fields_record_action)

lemma log_page_manager_emits:
  "log (page_manager_emits events t) =
     log t @ (if is_closed (constructorSubscription t) then [] else map Forwarded events)"
  by (simp add: page_manager_emits_def log_forwarded)

lemma fields_page_manager_emits:
  "tweets (page_manager_emits events t) = tweets t"
  "eventForwarder (page_manager_emits events t) = eventForwarder t"
  "tweetStream (page_manager_emits events t) = tweetStream t"
  "constructorSubscription (page_manager_emits events t) = constructorSubscription t"
  by (simp_all add: page_manager_emits_def fields_forwarded)

lemmas task_simps =
  log_record_action fields_record_action log_page_manager_emits fields_page_manager_emits
  emitProgressEvent_def emitMessageEvent_def stopForwardingEvents_def stopStreamingTweets_def
  emitCompleteEvent_def

lemma log_exportTweets:
  "log (exportTweets w options arr t) = log t @
     (if fileName options = None \<or> fileName options = Some [] then [Progress EXPORT_TWEETS None]
      else if json_export w (the (fileName options)) arr
        then [JSONExport (the (fileName options)) arr, Progress EXPORT_TWEETS None]
      else [JSONExport (the (fileName options)) arr, Message ''Failed to export tweets to file.''])"
  by (simp add: exportTweets_def task_simps Let_def split: option.split)

lemma fields_exportTweets:
  "tweets (exportTweets w options arr t) = tweets t"
  "eventForwarder (exportTweets w options arr t) = eventForwarder t"
  "tweetStream (exportTweets w options arr t) = tweetStream t"
  "constructorSubscription (exportTweets w options arr t) = constructorSubscription t"
  by (simp_all add: exportTweets_def task_simps Let_def split: option.split)

lemma log_stop:
  "log (state_of (stop w options t)) = log t @
     [UnsubscribeEventForwarder, UnsubscribeTweetStream,
      Progress BOOKMARKED_TWEETS_EXTRACT_COMPLETE None]
     @ (if fileName options = None \<or> fileName options = Some []
          then [Progress EXPORT_TWEETS None]
        else if json_export w (the (fileName options))
                  (tweetMapsToTweets (tweets t) (maxLimit options))
          then [JSONExport (the (fileName options))
                  (tweetMapsToTweets (tweets t) (maxLimit options)),
                Progress EXPORT_TWEETS None]
        else [JSONExport (the (fileName options))
                (tweetMapsToTweets (tweets t) (maxLimit options)),
              Message ''Failed to export tweets to file.''])
     @ StdOutExport (tweetMapsToTweets (tweets t) (maxLimit options))
       # (if stdout_export w (tweetMapsToTweets (tweets t) (maxLimit options))
          then ClosePageManager
               # (if is_closed (constructorSubscription t) then []
                  else map Forwarded (close_events w))
          else [])"
  by (simp add: stop_def printTweetsToStdOut_def closePageManager_def log_exportTweets
      fields_exportTweets task_simps Let_def)

lemma fields_stop:
  "tweets (state_of (stop w options t)) = tweets t"
  "eventForwarder (state_of (stop w options t)) = unsubscribe (eventForwarder t)"
  "tweetStream (state_of (stop w options t)) = unsubscribe (tweetStream t)"
  "constructorSubscription (state_of (stop w options t)) = constructorSubscription t"
  by (simp_all add: stop_def printTweetsToStdOut_def closePageManager_def
      fields_exportTweets task_simps Let_def)

lemma resolved_stop:
  "is_resolved (stop w options t) =
     (stdout_export w (tweetMapsToTweets (tweets t) (maxLimit options)) \<and> close_ok w)"
  by (simp add: stop_def printTweetsToStdOut_def closePageManager_def fields_exportTweets
      task_simps Let_def)

text \<open>
  Whatever \<^verbatim>\<open>stop()\<close> does, the constructor's subscription is as it was: where the page
  manager reports that it closes, that event is emitted again after the completion
  event and the export event.
\<close>

lemma forwarding_after_stop:
  "constructorSubscription (state_of (stop w options t)) = constructorSubscription t
   \<and> events_after_complete
       (log (state_of (stop talking_world \<lparr>maxLimit = POSITIVE_INFINITY, fileName = None\<rparr>
                         new_ExtractionTask)))
     = [Progress EXPORT_TWEETS None, Forwarded (ProgressEvent ''page:close'')]"
  by (simp add: fields_stop log_stop new_ExtractionTask_def new_Subscription_def
      talking_world_def BOOKMARKED_TWEETS_EXTRACT_COMPLETE_def EXPORT_TWEETS_def)

text \<open>
  Claim C3, as the spec states it: in \<^verbatim>\<open>stop()\<close> the event forwarding is torn down before the
  extraction subscription, both before the extraction-complete event, and no progress or
  message event of any kind follows the completion event. The last part does not hold:
  \<^verbatim>\<open>exportTweets\<close> runs after \<^verbatim>\<open>emitCompleteEvent\<close> and emits the export event. With no
  file name, no limit, collaborators that all resolve and a page manager that emits
  nothing, the events after the completion event are the one export event.
\<close>

theorem stop_emits_after_complete:
  "events_after_complete
     (log (state_of (stop quiet_world \<lparr>maxLimit = POSITIVE_INFINITY, fileName = None\<rparr>
                       new_ExtractionTask)))
   = [Progress EXPORT_TWEETS None]"
  by (simp add: log_stop new_ExtractionTask_def new_Subscription_def quiet_world_def
      BOOKMARKED_TWEETS_EXTRACT_COMPLETE_def EXPORT_TWEETS_def)

text \<open>
  Claim C3, amended: in \<^verbatim>\<open>stop()\<close> the extraction subscription is closed before the
  extraction-complete event, which is the first event that \<^verbatim>\<open>stop()\<close> puts on the channel;
  after it the task emits exactly one event of its own: the export event when the file
  export succeeded or there is no file name, the message that the export failed when it
  failed. Nothing is said about the forwarding of the page manager's events.
\<close>

theorem stop_order:
  "\<exists>before rest.
      log (state_of (stop w options t)) =
        log t @ before @ Progress BOOKMARKED_TWEETS_EXTRACT_COMPLETE None # rest
    \<and> UnsubscribeTweetStream \<in> set before
    \<and> filter is_channel_event before = []
    \<and> is_closed (tweetStream (state_of (stop w options t)))
    \<and> filter is_own_event rest =
        [if fileName options = None \<or> fileName options = Some []
            \<or> json_export w (the (fileName options))
                 (tweetMapsToTweets (tweets t) (maxLimit options))
         then Progress EXPORT_TWEETS None
         else Message ''Failed to export tweets to file.'']"
proof -
  define rest where "rest = drop (length (log t) + 3) (log (state_of (stop w options t)))"
  have l: "log (state_of (stop w options t)) =
             log t @ [UnsubscribeEventForwarder, UnsubscribeTweetStream]
               @ Progress BOOKMARKED_TWEETS_EXTRACT_COMPLETE None # rest"
    unfolding rest_def by (simp add: log_stop)
  have own: "filter is_own_event rest =
        [if fileName options = None \<or> fileName options = Some []
            \<or> json_export w (the (fileName options))
                 (tweetMapsToTweets (tweets t) (maxLimit options))
         then Progress EXPORT_TWEETS None
         else Message ''Failed to export tweets to file.'']"
    unfolding rest_def by (simp add: log_stop filter_map comp_def)
  have c: "is_closed (tweetStream (state_of (stop w options t)))"
    by (simp add: fields_stop unsubscribe_def)
  have b: "UnsubscribeTweetStream \<in> set [UnsubscribeEventForwarder, UnsubscribeTweetStream]"
    "filter is_channel_event [UnsubscribeEventForwarder, UnsubscribeTweetStream] = []"
    by simp_all
  from l own c b show ?thesis by blast
qed

text \<open>
  Claim C8: when the file export fails during \<^verbatim>\<open>stop()\<close>, the failure is caught and
  reported as a message event, it does not make \<^verbatim>\<open>stop()\<close> reject, and the run goes on to
  the console export and to closing the page manager. The log is the one of a run whose
  file export succeeded, with the message in place of the export event; \<^verbatim>\<open>stop()\<close>
  resolves exactly when the console export and the close do.
\<close>

theorem file_export_failure_contained:
  assumes "fileName options = Some f" and "f \<noteq> []"
    and "\<not> json_export w f (tweetMapsToTweets (tweets t) (maxLimit options))"
  shows "log (state_of (stop w options t)) =
      log t @ [UnsubscribeEventForwarder, UnsubscribeTweetStream,
               Progress BOOKMARKED_TWEETS_EXTRACT_COMPLETE None,
               JSONExport f (tweetMapsToTweets (tweets t) (maxLimit options)),
               Message ''Failed to export tweets to file.'',
               StdOutExport (tweetMapsToTweets (tweets t) (maxLimit options))]
            @ (if stdout_export w (tweetMapsToTweets (tweets t) (maxLimit options))
               then ClosePageManager
                    # (if is_closed (constructorSubscription t) then []
                       else map Forwarded (close_events w))
               else [])
    \<and> is_resolved (stop w options t) =
        (stdout_export w (tweetMapsToTweets (tweets t) (maxLimit options)) \<and> close_ok w)"
  using assms by (simp add: log_stop resolved_stop)

theorem file_export_failure_contained_witness:
  "fileName \<lparr>maxLimit = Num 1, fileName = Some ''bookmarks.json''\<rparr> = Some ''bookmarks.json''
   \<and> ''bookmarks.json'' \<noteq> []
   \<and> \<not> json_export full_disk_world ''bookmarks.json'' [tw ''1'']
   \<and> log (state_of (stop full_disk_world \<lparr>maxLimit = Num 1, fileName = Some ''bookmarks.json''\<rparr>
                       (new_ExtractionTask\<lparr>tweets := [tw ''1'', tw ''2'']\<rparr>))) =
       [UnsubscribeEventForwarder, UnsubscribeTweetStream,
        Progress BOOKMARKED_TWEETS_EXTRACT_COMPLETE None,
        JSONExport ''bookmarks.json'' [tw ''1''],
        Message ''Failed to export tweets to file.'',
        StdOutExport [tw ''1''], ClosePageManager]
   \<and> is_resolved (stop full_disk_world \<lparr>maxLimit = Num 1, fileName = Some ''bookmarks.json''\<rparr>
                      (new_ExtractionTask\<lparr>tweets := [tw ''1'', tw ''2'']\<rparr>))"
  using file_export_failure_contained
    [of "\<lparr>maxLimit = Num 1, fileName = Some ''bookmarks.json''\<rparr>" "''bookmarks.json''"
        full_disk_world "new_ExtractionTask\<lparr>tweets := [tw ''1'', tw ''2'']\<rparr>"]
  by (simp add: full_disk_world_def tweetMapsToTweets_def toInteger_def new_ExtractionTask_def
      new_Subscription_def)

section \<open>numEvents\<close>

text \<open>
  Claim C9: \<^verbatim>\<open>numEvents\<close> is the number of the page manager's progress events, plus the
  task's own fixed events, plus the limit when a finite limit is configured and nothing
  otherwise. The task's fixed events are its progress events other than the
  extraction-progress event, which is the one counted through the limit: two. The sums
  are the sums of JavaScript, for every value of the limit; they are the exact sums of
  the integers as long as these stay within \<open>2 ^ 53\<close>, and rounded beyond: with one event
  of the page manager and the limit \<open>2 ^ 53\<close> the result is 9007199254740996.
\<close>

theorem numEvents_total:
  "numEvents pm_events options =
     js_add (Num (of_nat (length pm_events)))
       (if maxLimit options = POSITIVE_INFINITY then Num (of_nat (length PROGRESS_EVENTS) - 1)
        else js_add (Num (of_nat (length PROGRESS_EVENTS) - 1)) (maxLimit options))
   \<and> int (length PROGRESS_EVENTS) - 1
       = int (length (removeAll BOOKMARKED_TWEETS_EXTRACTION PROGRESS_EVENTS))
   \<and> int (length PROGRESS_EVENTS) - 1 = 2
   \<and> (maxLimit options = POSITIVE_INFINITY \<and> int (length pm_events) + 2 \<le> 2 ^ 53 \<longrightarrow>
        numEvents pm_events options = Num (of_int (int (length pm_events) + 2)))
   \<and> (maxLimit options = Num (of_int l) \<and> int (length pm_events) + 2 + \<bar>l\<bar> \<le> 2 ^ 53 \<longrightarrow>
        numEvents pm_events options = Num (of_int (int (length pm_events) + 2 + l)))
   \<and> numEvents [''page:open''] \<lparr>maxLimit = Num (2 ^ 53), fileName = None\<rparr>
        = Num 9007199254740996"
proof -
  have three: "length PROGRESS_EVENTS = 3"
    by (simp add: PROGRESS_EVENTS_def)
  have general: "numEvents pm_events options =
     js_add (Num (of_nat (length pm_events)))
       (if maxLimit options = POSITIVE_INFINITY then Num (of_nat (length PROGRESS_EVENTS) - 1)
        else js_add (Num (of_nat (length PROGRESS_EVENTS) - 1)) (maxLimit options))"
    by (simp add: numEvents_def Let_def)
  have fixed: "int (length PROGRESS_EVENTS) - 1
       = int (length (removeAll BOOKMARKED_TWEETS_EXTRACTION PROGRESS_EVENTS))"
    by (simp add: PROGRESS_EVENTS_def BOOKMARKED_TWEETS_EXTRACTION_def
        BOOKMARKED_TWEETS_EXTRACT_COMPLETE_def EXPORT_TWEETS_def)
  have unbounded: "numEvents pm_events options = Num (of_int (int (length pm_events) + 2))"
    if "maxLimit options = POSITIVE_INFINITY" and "int (length pm_events) + 2 \<le> 2 ^ 53"
  proof -
    have "\<bar>int (length pm_events) + 2\<bar> \<le> 2 ^ 53"
      using that(2) by simp
    from round_double_int [OF this] that(1) show ?thesis
      by (simp add: general three)
  qed
  have bounded: "numEvents pm_events options = Num (of_int (int (length pm_events) + 2 + l))"
    if "maxLimit options = Num (of_int l)" and "int (length pm_events) + 2 + \<bar>l\<bar> \<le> 2 ^ 53"
  proof -
    have "\<bar>2 + l\<bar> \<le> 2 ^ 53"
      using that(2) by linarith
    from round_double_int [OF this]
    have inner: "round_double (2 + of_int l) = Num (of_int (2 + l))"
      by simp
    have "\<bar>int (length pm_events) + (2 + l)\<bar> \<le> 2 ^ 53"
      using that(2) by linarith
    from round_double_int [OF this]
    have outer: "round_double (of_nat (length pm_events) + (2 + of_int l))
                   = Num (of_int (int (length pm_events) + 2 + l))"
      by (simp add: add.assoc)
    show ?thesis
      using that(1) inner by (simp add: general three outer)
  qed
  have edge: "numEvents [''page:open''] \<lparr>maxLimit = Num (2 ^ 53), fileName = None\<rparr>
        = Num 9007199254740996"
    by code_simp
  from general fixed three unbounded bounded edge show ?thesis
    by simp
qed

theorem numEvents_total_witness:
  "maxLimit \<lparr>maxLimit = Num (of_int 100), fileName = None\<rparr> = Num (of_int 100)
   \<and> int (length [''page:open'', ''page:login'', ''page:bookmarks'', ''page:close'']) + 2 + \<bar>100\<bar>
       \<le> 2 ^ 53
   \<and> numEvents [''page:open'', ''page:login'', ''page:bookmarks'', ''page:close'']
        \<lparr>maxLimit = Num (of_int 100), fileName = None\<rparr> = Num 106
   \<and> maxLimit \<lparr>maxLimit = POSITIVE_INFINITY, fileName = None\<rparr> = POSITIVE_INFINITY
   \<and> numEvents [''page:open'', ''page:login'', ''page:bookmarks'', ''page:close'']
        \<lparr>maxLimit = POSITIVE_INFINITY, fileName = None\<rparr> = Num 6"
proof -
  let ?pm = "[''page:open'', ''page:login'', ''page:bookmarks'', ''page:close'']"
  have b1: "maxLimit \<lparr>maxLimit = Num (of_int 100), fileName = None\<rparr> = Num (of_int 100)"
    and b2: "int (length ?pm) + 2 + \<bar>100\<bar> \<le> 2 ^ 53"
    and u1: "maxLimit \<lparr>maxLimit = POSITIVE_INFINITY, fileName = None\<rparr> = POSITIVE_INFINITY"
    and u2: "int (length ?pm) + 2 \<le> 2 ^ 53"
    by simp_all
  from numEvents_total [of ?pm "\<lparr>maxLimit = Num (of_int 100), fileName = None\<rparr>" 100] b1 b2
  have "numEvents ?pm \<lparr>maxLimit = Num (of_int 100), fileName = None\<rparr>
          = Num (of_int (int (length ?pm) + 2 + 100))"
    by blast
  then have bounded: "numEvents ?pm \<lparr>maxLimit = Num (of_int 100), fileName = None\<rparr> = Num 106"
    by simp
  from numEvents_total [of ?pm "\<lparr>maxLimit = POSITIVE_INFINITY, fileName = None\<rparr>" 0] u1 u2
  have "numEvents ?pm \<lparr>maxLimit = POSITIVE_INFINITY, fileName = None\<rparr>
          = Num (of_int (int (length ?pm) + 2))"
    by blast
  then have unbounded: "numEvents ?pm \<lparr>maxLimit = POSITIVE_INFINITY, fileName = None\<rparr> = Num 6"
    by simp
  from b1 b2 u1 bounded unbounded show ?thesis
    by blast
qed

section \<open>The stream of tweet sets\<close>

lemma tags_distinct:
  "BOOKMARKED_TWEETS_EXTRACT_COMPLETE \<noteq> BOOKMARKED_TWEETS_EXTRACTION"
  "EXPORT_TWEETS \<noteq> BOOKMARKED_TWEETS_EXTRACTION"
  "EXPORT_TWEETS \<noteq> BOOKMARKED_TWEETS_EXTRACT_COMPLETE"
  by (simp_all add: BOOKMARKED_TWEETS_EXTRACTION_def BOOKMARKED_TWEETS_EXTRACT_COMPLETE_def
      EXPORT_TWEETS_def)

lemma no_extraction_event_forwarded:
  "filter is_extraction_event (map Forwarded events) = []"
  "filter is_extraction_progress (map Forwarded events) = []"
  by (simp_all add: filter_map comp_def)

lemma extraction_events_onComplete:
  "filter is_extraction_event (log (state_of (onComplete w options t))) =
     filter is_extraction_event (log t) @ [Progress BOOKMARKED_TWEETS_EXTRACT_COMPLETE None]"
proof (cases "stop w options t")
  case (Resolved t1)
  with log_stop[of w options t] show ?thesis
    by (simp add: onComplete_def log_record_action tags_distinct
        no_extraction_event_forwarded)
next
  case (Rejected t1)
  with log_stop[of w options t] show ?thesis
    by (simp add: onComplete_def tags_distinct no_extraction_event_forwarded)
qed

lemma extraction_progress_onComplete:
  "filter is_extraction_progress (log (state_of (onComplete w options t))) =
     filter is_extraction_progress (log t)"
proof (cases "stop w options t")
  case (Resolved t1)
  with log_stop[of w options t] show ?thesis
    by (simp add: onComplete_def log_record_action tags_distinct
        no_extraction_event_forwarded)
next
  case (Rejected t1)
  with log_stop[of w options t] show ?thesis
    by (simp add: onComplete_def tags_distinct no_extraction_event_forwarded)
qed

lemma log_onExtractTweets_unbounded:
  "maxLimit options = POSITIVE_INFINITY \<Longrightarrow> log (onExtractTweets options s t) = log t"
  by (simp add: onExtractTweets_def)

lemma log_onError:
  "log (onError e t) =
     log t @ Message (message e) # (case stack e of None \<Rightarrow> [] | Some s \<Rightarrow> [Message s])
       @ [ErrorCallback e]"
  by (simp add: onError_def task_simps Let_def split: option.split)

lemma observer_unbounded_progress:
  "maxLimit options = POSITIVE_INFINITY \<Longrightarrow>
   filter is_extraction_progress (log (state_of (tweetsObserver w options ns t))) =
     filter is_extraction_progress (log t)"
proof (induction w options ns t rule: tweetsObserver.induct)
  case (1 w options t)
  then show ?case by simp
next
  case (2 w options s ns t)
  then show ?case by (simp add: log_onExtractTweets_unbounded)
next
  case (3 w options ns t)
  then show ?case by (simp add: extraction_progress_onComplete)
next
  case (4 w options e ns t)
  then show ?case by (simp add: log_onError Let_def split: option.split)
qed

text \<open>While the source delivers batches, the chain delivers nothing and keeps pulling.\<close>

lemma stream_running:
  "tweets_stream l acc (map Next batches) = ([], length batches)"
proof (induction batches arbitrary: acc)
  case Nil
  show ?case by simp
next
  case (Cons b batches)
  then show ?case by (cases acc) simp_all
qed

text \<open>
  Without a limit, a source that completes makes the chain deliver the union of all its
  batches, once, and then the completion.
\<close>

lemma stream_unbounded_completes:
  "fst (tweets_stream POSITIVE_INFINITY acc (map Next batches @ Complete # rest)) =
     (case foldl (\<lambda>a b. Some (case a of None \<Rightarrow> b | Some s \<Rightarrow> union_os s b)) acc batches of
        None \<Rightarrow> [Complete]
      | Some s \<Rightarrow> [Next s, Complete])"
proof (induction batches arbitrary: acc)
  case Nil
  then show ?case by (cases acc) simp_all
next
  case (Cons b batches)
  then show ?case by (cases acc) (simp_all add: case_prod_beta)
qed

text \<open>Whatever the limit, every batch of a source that completes is pulled.\<close>

lemma stream_pulls_all:
  "snd (tweets_stream l acc (map Next batches @ Complete # rest)) = length batches"
proof (induction batches arbitrary: acc)
  case Nil
  then show ?case by (cases acc) simp_all
next
  case (Cons b batches)
  then show ?case by (cases acc) (simp_all add: case_prod_beta)
qed

text \<open>
  Claim C7: without a limit the task never emits an extraction-progress event, whatever
  the source delivers; when the source completes, the only event about the extraction
  is the one extraction-complete event.
\<close>

theorem unbounded_no_ratio_events:
  assumes "maxLimit options = POSITIVE_INFINITY"
  shows "filter is_extraction_progress
           (log (state_of (run w options source new_ExtractionTask))) = []
    \<and> filter is_extraction_event
        (log (state_of (run w options (map Next batches @ Complete # rest) new_ExtractionTask)))
      = [Progress BOOKMARKED_TWEETS_EXTRACT_COMPLETE None]"
proof -
  have a: "filter is_extraction_progress
             (log (state_of (run w options source new_ExtractionTask))) = []"
    using assms
    by (simp add: run_def observer_unbounded_progress new_ExtractionTask_def Let_def
        log_page_manager_emits no_extraction_event_forwarded)
  have b: "filter is_extraction_event
        (log (state_of (run w options (map Next batches @ Complete # rest) new_ExtractionTask)))
      = [Progress BOOKMARKED_TWEETS_EXTRACT_COMPLETE None]"
    using assms
    by (simp add: run_def stream_unbounded_completes extraction_events_onComplete
        log_onExtractTweets_unbounded new_ExtractionTask_def Let_def
        log_page_manager_emits no_extraction_event_forwarded split: option.split)
  from a b show ?thesis by simp
qed

theorem unbounded_no_ratio_events_witness:
  "maxLimit \<lparr>maxLimit = POSITIVE_INFINITY, fileName = None\<rparr> = POSITIVE_INFINITY
   \<and> filter is_extraction_progress
       (log (state_of (run quiet_world \<lparr>maxLimit = POSITIVE_INFINITY, fileName = None\<rparr>
                         [Next batch1, Next batch2, Error (JsError ''timeout'' None)]
                         new_ExtractionTask))) = []
   \<and> filter is_extraction_event
       (log (state_of (run quiet_world \<lparr>maxLimit = POSITIVE_INFINITY, fileName = None\<rparr>
                         [Next batch1, Next batch2, Complete] new_ExtractionTask)))
     = [Progress BOOKMARKED_TWEETS_EXTRACT_COMPLETE None]"
  using unbounded_no_ratio_events
    [of "\<lparr>maxLimit = POSITIVE_INFINITY, fileName = None\<rparr>" quiet_world
        "[Next batch1, Next batch2, Error (JsError ''timeout'' None)]" "[batch1, batch2]" "[]"]
  by simp

text \<open>
  Claim C1 says that with a limit of 5 and three batches of three new tweets each the
  chain stops pulling after the second batch and five tweets are exported. The chain
  accumulates with \<^verbatim>\<open>reduce\<close>, which passes nothing on before the source completes: every
  batch of a completing source is pulled, whatever the limit. With the limit 5 the one
  accumulated set has nine tweets, \<^verbatim>\<open>takeWhile\<close> drops it, \<^verbatim>\<open>onExtractTweets\<close> is never
  called, and \<^verbatim>\<open>stop()\<close> exports the empty array. (\<^verbatim>\<open>tweetMapsToTweets\<close> itself would cut a
  set of nine down to its first five.)
\<close>

theorem bounded_run_three_batches:
  "pulled options (map Next batches @ Complete # rest) = length batches
   \<and> pulled \<lparr>maxLimit = Num 5, fileName = None\<rparr>
        [Next batch1, Next batch2, Next batch3, Complete] = 3
   \<and> emissions \<lparr>maxLimit = Num 5, fileName = None\<rparr>
        [Next batch1, Next batch2, Next batch3, Complete] = []
   \<and> tweetMapsToTweets (batch1 @ batch2 @ batch3) (Num 5)
      = [tw ''1'', tw ''2'', tw ''3'', tw ''4'', tw ''5'']
   \<and> run quiet_world \<lparr>maxLimit = Num 5, fileName = None\<rparr>
        [Next batch1, Next batch2, Next batch3, Complete] new_ExtractionTask
      = Resolved \<lparr>tweets = [],
                  eventForwarder = \<lparr>is_closed = True\<rparr>,
                  tweetStream = \<lparr>is_closed = True\<rparr>,
                  constructorSubscription = \<lparr>is_closed = False\<rparr>,
                  log = [UnsubscribeEventForwarder, UnsubscribeTweetStream,
                         Progress BOOKMARKED_TWEETS_EXTRACT_COMPLETE None,
                         Progress EXPORT_TWEETS None,
                         StdOutExport [], ClosePageManager, SuccessCallback]\<rparr>"
proof -
  have "pulled options (map Next batches @ Complete # rest) = length batches"
    by (simp add: pulled_def stream_pulls_all)
  then show ?thesis
    by (simp add: pulled_def emissions_def run_def batch1_def batch2_def batch3_def
        union_os_def add_os_def tw_def onComplete_def stop_def task_simps exportTweets_def
        printTweetsToStdOut_def closePageManager_def quiet_world_def new_ExtractionTask_def
        new_Subscription_def unsubscribe_def page_manager_emits_def tweetMapsToTweets_def
        toInteger_def record_action_def Let_def)
qed

text \<open>
  Claim C2 says that the accumulated set is handed to the caller after every batch. The
  chain hands nothing over while the source delivers batches; after two batches and the
  completion, \<^verbatim>\<open>onExtractTweets\<close> has been called once, with the union of both.
\<close>

theorem emissions_only_at_completion:
  "emissions options (map Next batches) = []
   \<and> emissions \<lparr>maxLimit = POSITIVE_INFINITY, fileName = None\<rparr>
        [Next batch1, Next batch2, Complete] = [batch1 @ batch2]"
  by (simp add: emissions_def stream_running batch1_def batch2_def union_os_def add_os_def
      tw_def)

section \<open>Union of tweet sets\<close>

lemma set_add_os: "set (add_os s v) = insert v (set s)"
  by (auto simp: add_os_def)

lemma set_union_os: "set (union_os s other) = set s \<union> set other"
  unfolding union_os_def by (induction other arbitrary: s) (auto simp: set_add_os)

lemma union_os_filter:
  "distinct other \<Longrightarrow> union_os s other = s @ filter (\<lambda>v. v \<notin> set s) other"
  unfolding union_os_def
proof (induction other arbitrary: s)
  case Nil
  then show ?case by simp
next
  case (Cons v other)
  show ?case
  proof (cases "v \<in> set s")
    case True
    with Cons show ?thesis by (simp add: add_os_def)
  next
    case False
    have "filter (\<lambda>x. x \<noteq> v \<and> x \<notin> set s) other = filter (\<lambda>x. x \<notin> set s) other"
      using Cons.prems by (intro filter_cong) auto
    with False Cons show ?thesis by (simp add: add_os_def)
  qed
qed

lemma union_os_absorb: "set other \<subseteq> set s \<Longrightarrow> union_os s other = s"
  unfolding union_os_def by (induction other arbitrary: s) (auto simp: add_os_def)

lemma distinct_union_os: "distinct s \<Longrightarrow> distinct other \<Longrightarrow> distinct (union_os s other)"
  by (auto simp: union_os_filter)

text \<open>
  Claim C5, as the spec states it: two batches that both hold a record with the
  identifier \<open>id\<close>, possibly with other field values, give a union that holds \<open>id\<close> once.
  The set compares whole records: two records with the identifier 1 and different texts
  are two elements, and the union lists the identifier twice.
\<close>

theorem union_keeps_both_versions:
  "map tweet_id
     (union_os (union_os [] [\<lparr>tweet_id = ''1'', tweet_text = ''first''\<rparr>])
        [\<lparr>tweet_id = ''1'', tweet_text = ''second''\<rparr>])
   = [''1'', ''1'']"
  by (simp add: union_os_def add_os_def)

text \<open>
  Claim C5, amended: the union removes duplicates by equality of the whole record. For
  two batches \<open>B1\<close>, \<open>B2\<close> (sets themselves), \<open>union(union(\<emptyset>, B1), B2)\<close> is \<open>B1\<close>
  followed by the records of \<open>B2\<close> that are not in \<open>B1\<close>, in their order: every record
  once, at the place where it was first seen. Its size is the number of distinct
  records. Merging a batch again changes nothing, and merging in the other order gives
  the same identifiers. Where equal identifiers mean equal records, every identifier
  occurs once and the size is the number of distinct identifiers.
\<close>

theorem union_dedup_by_value:
  assumes "distinct B1" and "distinct B2"
  shows "union_os (union_os [] B1) B2 = B1 @ filter (\<lambda>r. r \<notin> set B1) B2
    \<and> distinct (union_os (union_os [] B1) B2)
    \<and> set (union_os (union_os [] B1) B2) = set B1 \<union> set B2
    \<and> length (union_os (union_os [] B1) B2) = card (set B1 \<union> set B2)
    \<and> union_os (union_os (union_os [] B1) B2) B1 = union_os (union_os [] B1) B2
    \<and> union_os (union_os (union_os [] B1) B2) B2 = union_os (union_os [] B1) B2
    \<and> tweet_id ` set (union_os (union_os [] B2) B1)
        = tweet_id ` set (union_os (union_os [] B1) B2)
    \<and> (inj_on tweet_id (set B1 \<union> set B2) \<longrightarrow>
         distinct (map tweet_id (union_os (union_os [] B1) B2))
         \<and> length (union_os (union_os [] B1) B2) = card (tweet_id ` (set B1 \<union> set B2)))"
proof -
  let ?U = "union_os (union_os [] B1) B2"
  have nil: "union_os [] B1 = B1"
    using assms(1) by (simp add: union_os_filter)
  have eq: "?U = B1 @ filter (\<lambda>r. r \<notin> set B1) B2"
    using assms(2) by (simp add: nil union_os_filter)
  have d: "distinct ?U"
    using assms by (simp add: nil distinct_union_os)
  have s: "set ?U = set B1 \<union> set B2"
    by (simp add: set_union_os)
  have l: "length ?U = card (set B1 \<union> set B2)"
    using d s distinct_card by metis
  have i1: "union_os ?U B1 = ?U"
    by (rule union_os_absorb) (simp add: s)
  have i2: "union_os ?U B2 = ?U"
    by (rule union_os_absorb) (simp add: s)
  have c: "tweet_id ` set (union_os (union_os [] B2) B1) = tweet_id ` set ?U"
    by (simp add: set_union_os Un_commute)
  have inj: "inj_on tweet_id (set B1 \<union> set B2) \<longrightarrow>
         distinct (map tweet_id ?U) \<and> length ?U = card (tweet_id ` (set B1 \<union> set B2))"
    using d s l by (auto simp: distinct_map card_image)
  from eq d s l i1 i2 c inj show ?thesis by blast
qed

theorem union_dedup_by_value_witness:
  "distinct [tw ''1'', tw ''2''] \<and> distinct [tw ''2'', tw ''3'']
   \<and> inj_on tweet_id (set [tw ''1'', tw ''2''] \<union> set [tw ''2'', tw ''3''])
   \<and> union_os (union_os [] [tw ''1'', tw ''2'']) [tw ''2'', tw ''3'']
       = [tw ''1'', tw ''2'', tw ''3'']
   \<and> distinct (map tweet_id (union_os (union_os [] [tw ''1'', tw ''2'']) [tw ''2'', tw ''3'']))
   \<and> length (union_os (union_os [] [tw ''1'', tw ''2'']) [tw ''2'', tw ''3'']) = 3"
proof -
  have d1: "distinct [tw ''1'', tw ''2'']" and d2: "distinct [tw ''2'', tw ''3'']"
    by (simp_all add: tw_def)
  have inj: "inj_on tweet_id (set [tw ''1'', tw ''2''] \<union> set [tw ''2'', tw ''3''])"
    by (auto simp: inj_on_def tw_def)
  have u: "union_os (union_os [] [tw ''1'', tw ''2'']) [tw ''2'', tw ''3'']
             = [tw ''1'', tw ''2'', tw ''3'']"
    by (simp add: union_os_def add_os_def tw_def)
  from union_dedup_by_value [OF d1 d2] inj
  have "distinct (map tweet_id (union_os (union_os [] [tw ''1'', tw ''2'']) [tw ''2'', tw ''3'']))"
    by blast
  with d1 d2 inj u show ?thesis by simp
qed

section \<open>The client: logging in and entering codes\<close>

lemma emit_fields:
  "state (emit e c) = state c"
  "pageManagerReady (emit e c) = pageManagerReady c"
  "lastAuthAttemptFailed (emit e c) = lastAuthAttemptFailed c"
  "lastCodeAttemptFailed (emit e c) = lastCodeAttemptFailed c"
  "pageManager (emit e c) = pageManager c"
  "emitted (emit e c) = emitted c @ [e]"
  by (simp_all add: emit_def)

lemma assert_fields:
  "state (assertPageManagerReady c) = state c"
  "pageManagerReady (assertPageManagerReady c) = pageManagerReady c"
  "lastAuthAttemptFailed (assertPageManagerReady c) = lastAuthAttemptFailed c"
  "lastCodeAttemptFailed (assertPageManagerReady c) = lastCodeAttemptFailed c"
  "pageManager (assertPageManagerReady c) = pageManager c"
  by (simp_all add: assertPageManagerReady_def emit_fields Let_def)

text \<open>
  Claim C4 says that on a client that was not initialised the two code methods emit one
  \<^verbatim>\<open>internalError\<close>, do not submit the code and change nothing. \<^verbatim>\<open>assertPageManagerReady\<close>
  emits the event and returns; the method goes on, as it does on a ready client: the
  code is handed to the page manager in every case. On a new client whose browser still
  shows the two-factor page afterwards, \<^verbatim>\<open>userError\<close> follows the \<^verbatim>\<open>internalError\<close> and
  \<^verbatim>\<open>lastCodeAttemptFailed\<close> has become true.
\<close>

theorem code_submitted_when_not_ready:
  "pageManager (state_of (enterTwoFactorCode b code c))
     = pageManager c @ [PM_enterTwoFactorCode code]
   \<and> pageManager (state_of (enterConfirmationCode b code c))
     = pageManager c @ [PM_enterConfirmationCode code]
   \<and> enterTwoFactorCode (browser_at TwoFaCode) ''000000'' new_Client =
       Resolved \<lparr>pageManager = [PM_enterTwoFactorCode ''000000''], pageManagerReady = False,
                 state = LoggedOut, lastAuthAttemptFailed = False,
                 lastCodeAttemptFailed = True,
                 emitted =
                   [internalError
                      (concat [''Page manager had not been initialized correctly.'',
                               ''The page manager is necessary to sign in on your behalf to Twitter and begin the process of fetching bookmarks.'']),
                    userError ''Your 2FA code was incorrect.'']\<rparr>"
  by (simp add: enterConfirmationCode_def enterTwoFactorCode_def await_page_def Let_def
      emit_def assertPageManagerReady_def new_Client_def browser_at_def currentUrlHasPath_def)

text \<open>
  Claim C6: on a ready client in state \<open>LoggedOut\<close>, a login that lands on the bookmarks
  page gives the state \<open>LoggedIn\<close> and the one event \<^verbatim>\<open>success\<close>; a login that lands on
  none of the bookmarks, challenge-code and two-factor pages leaves the state
  \<open>LoggedOut\<close>, marks the attempt as failed and emits the one event \<^verbatim>\<open>userError\<close>. (The
  calls to the page manager are taken to resolve.)
\<close>

theorem logIn_transitions:
  assumes "pageManagerReady c" and "state c = LoggedOut"
    and "\<not> rejects b (pageManager c @ [PM_logIn credentials])"
  shows "(urlHasPath b (pageManager c @ [PM_logIn credentials]) Bookmarks \<longrightarrow>
           logIn b credentials c =
             Resolved (c\<lparr>pageManager := pageManager c @ [PM_logIn credentials],
                         lastAuthAttemptFailed := False, state := LoggedIn,
                         emitted := emitted c @ [success]\<rparr>))
       \<and> (\<not> urlHasPath b (pageManager c @ [PM_logIn credentials]) Bookmarks
          \<and> \<not> urlHasPath b (pageManager c @ [PM_logIn credentials]) ChallengeCode
          \<and> \<not> urlHasPath b (pageManager c @ [PM_logIn credentials]) TwoFaCode
          \<and> \<not> rejects b (pageManager c @ [PM_logIn credentials, PM_refreshWithBookmarksRedirect])
          \<longrightarrow>
           logIn b credentials c =
             Resolved (c\<lparr>pageManager :=
                           pageManager c @ [PM_logIn credentials, PM_refreshWithBookmarksRedirect],
                         lastAuthAttemptFailed := True,
                         emitted := emitted c @ [userError ''Your credentials were incorrect.'']\<rparr>)
           \<and> state (state_of (logIn b credentials c)) = LoggedOut)"
  using assms
  by (simp add: logIn_def handleLoginIssue_def await_page_def currentUrlHasPath_def emit_def
      Let_def)

theorem logIn_transitions_witness:
  "pageManagerReady (new_Client\<lparr>pageManagerReady := True\<rparr>)
   \<and> state (new_Client\<lparr>pageManagerReady := True\<rparr>) = LoggedOut
   \<and> \<not> rejects (browser_at Bookmarks) [PM_logIn (''user'', ''secret'')]
   \<and> urlHasPath (browser_at Bookmarks) [PM_logIn (''user'', ''secret'')] Bookmarks
   \<and> logIn (browser_at Bookmarks) (''user'', ''secret'') (new_Client\<lparr>pageManagerReady := True\<rparr>)
       = Resolved \<lparr>pageManager = [PM_logIn (''user'', ''secret'')], pageManagerReady = True,
                   state = LoggedIn, lastAuthAttemptFailed = False,
                   lastCodeAttemptFailed = False, emitted = [success]\<rparr>
   \<and> \<not> rejects (browser_at LoggedOutPath)
         [PM_logIn (''user'', ''wrong''), PM_refreshWithBookmarksRedirect]
   \<and> logIn (browser_at LoggedOutPath) (''user'', ''wrong'')
         (new_Client\<lparr>pageManagerReady := True\<rparr>)
       = Resolved \<lparr>pageManager = [PM_logIn (''user'', ''wrong''), PM_refreshWithBookmarksRedirect],
                   pageManagerReady = True, state = LoggedOut, lastAuthAttemptFailed = True,
                   lastCodeAttemptFailed = False,
                   emitted = [userError ''Your credentials were incorrect.'']\<rparr>"
  using logIn_transitions
      [of "new_Client\<lparr>pageManagerReady := True\<rparr>" "browser_at Bookmarks" "(''user'', ''secret'')"]
    logIn_transitions
      [of "new_Client\<lparr>pageManagerReady := True\<rparr>" "browser_at LoggedOutPath"
          "(''user'', ''wrong'')"]
  by (simp add: new_Client_def browser_at_def)

text \<open>
  Claim C10: \<^verbatim>\<open>enterConfirmationCode\<close> and \<^verbatim>\<open>enterTwoFactorCode\<close> leave the field \<^verbatim>\<open>state\<close> as
  it was, from every state of the client, for every code and whatever the browser does
  with the code; in particular they never set \<open>LoggedIn\<close>. Of the client's own fields
  they assign \<^verbatim>\<open>lastCodeAttemptFailed\<close> only: \<^verbatim>\<open>pageManagerReady\<close> and
  \<^verbatim>\<open>lastAuthAttemptFailed\<close> are unchanged too.
\<close>

theorem enter_code_keeps_state:
  "state (state_of (enterConfirmationCode b code c)) = state c
   \<and> pageManagerReady (state_of (enterConfirmationCode b code c)) = pageManagerReady c
   \<and> lastAuthAttemptFailed (state_of (enterConfirmationCode b code c)) = lastAuthAttemptFailed c
   \<and> state (state_of (enterTwoFactorCode b code c)) = state c
   \<and> pageManagerReady (state_of (enterTwoFactorCode b code c)) = pageManagerReady c
   \<and> lastAuthAttemptFailed (state_of (enterTwoFactorCode b code c)) = lastAuthAttemptFailed c"
  by (simp add: enterConfirmationCode_def enterTwoFactorCode_def await_page_def Let_def
      emit_fields assert_fields)

end
